theory Spec2Isabelle
  imports Complex_Main
begin

section \<open>The trajectory pipeline of \<^verbatim>\<open>feudal_policy_optimizer.py\<close>\<close>

text \<open>
  The embedding follows \<^verbatim>\<open>src/feudal_networks/algos/feudal_policy_optimizer.py\<close>.
  Python lists are HOL lists, \<^verbatim>\<open>np.asarray\<close> of a list is the list itself (its first
  axis is the list's length), rewards, bootstrap values and discount factors are
  real numbers (the arithmetic of the arrays is idealised: no rounding), and the
  objects the file never looks into (observations, actions, value estimates, the
  vectors \<^verbatim>\<open>s\<close> and \<^verbatim>\<open>g\<close>, recurrent features) are type parameters.
\<close>

subsection \<open>Errors\<close>

text \<open>
  The exceptions the modelled code raises: the \<^verbatim>\<open>assert\<close> of \<^verbatim>\<open>PartialRollout.extend\<close>
  and \<^verbatim>\<open>queue.Empty\<close> of the two receive operations of the queue.
\<close>

datatype error = AssertionError | Empty

subsection \<open>PartialRollout and Batch\<close>

text \<open>
  The field \<^verbatim>\<open>values\<close> of the class is the field \<open>values'\<close> of the record
  (\<^verbatim>\<open>values\<close> is a keyword of Isabelle).
\<close>

record ('o, 'a, 'v, 's, 'g, 'f) PartialRollout =
  states :: "'o list"
  actions :: "'a list"
  rewards :: "real list"
  values' :: "'v list"
  ss :: "'s list"
  gs :: "'g list"
  features :: "'f list"
  manager_r :: real
  worker_r :: real
  terminal :: bool

text \<open>
  The namedtuple \<^verbatim>\<open>Batch\<close>, fields in the order of the source. The fields
  \<^verbatim>\<open>a\<close>, \<^verbatim>\<open>terminal\<close>, \<^verbatim>\<open>s\<close>, \<^verbatim>\<open>g\<close> and \<^verbatim>\<open>features\<close> carry the prefix
  \<open>batch_\<close>, as the local variables of \<^verbatim>\<open>process_rollout\<close> do.
\<close>

record ('o, 'a, 's, 'g, 'f) Batch =
  obs :: "'o list"
  batch_a :: "'a list"
  manager_returns :: "real list"
  worker_returns :: "real list"
  batch_terminal :: bool
  batch_s :: "'s list"
  batch_g :: "'g list"
  batch_features :: "'f list"

text \<open>
  The environment and the policy that \<^verbatim>\<open>env_runner\<close> drives are external: their
  operations are parameters. The environment's own state is threaded through
  \<open>env_reset\<close> and \<open>env_step\<close>;
  \<open>env_timestep_limit\<close> is the tag \<^verbatim>\<open>wrapper_config.TimeLimit.max_episode_steps\<close> and
  \<open>env_autoreset\<close> the metadata entry \<^verbatim>\<open>semantics.autoreset\<close>; \<open>action_argmax\<close> is
  \<^verbatim>\<open>action.argmax()\<close>. The \<^verbatim>\<open>info\<close> of a step only feeds the summary writer and
  is left out, as are the summaries and the printed line.
\<close>

record ('o, 'a, 'v, 's, 'g, 'f, 'c, 'e) collaborators =
  env_reset :: "'e \<Rightarrow> 'o \<times> 'e"
  env_step :: "'e \<Rightarrow> nat \<Rightarrow> ('o \<times> real \<times> bool) \<times> 'e"
  env_timestep_limit :: nat
  env_autoreset :: bool
  policy_get_initial_features :: "'c \<times> 'f"
  policy_act :: "'o \<Rightarrow> 'c \<Rightarrow> 'f \<Rightarrow> 'a \<times> 'v \<times> 'g \<times> 's \<times> 'c \<times> 'f"
  policy_value :: "'o \<Rightarrow> 'c \<Rightarrow> 'f \<Rightarrow> real \<times> real"
  action_argmax :: "'a \<Rightarrow> nat"

text \<open>
  The local variables of the generator that live across its iterations; the
  variables \<^verbatim>\<open>length\<close> and \<^verbatim>\<open>rewards\<close> are \<open>length'\<close> and \<open>rewards'\<close>.
\<close>

record ('o, 'f, 'c, 'e) runner_state =
  env_state :: 'e
  last_state :: 'o
  last_c_g :: 'c
  last_features :: 'f
  length' :: nat
  rewards' :: real
  reward_list :: "real list"

text \<open>
  The queue of the runner thread is \<^verbatim>\<open>queue.Queue\<close> of the standard library,
  shared with the producer. Its state, as one call of the consumer meets it:
  \<open>present\<close> are the fragments in the queue, oldest first, which a receive finds
  without waiting; \<open>arriving\<close> are the fragments the producer puts only later,
  in this order, each soon enough for a receive that waits with the timeout of
  the source; \<open>calls\<close> is the record of the receive calls made on the queue,
  \<open>Get t\<close> for \<^verbatim>\<open>get(timeout=t)\<close> and \<open>GetNowait\<close> for \<^verbatim>\<open>get_nowait()\<close>.
\<close>

datatype receive = Get real | GetNowait

record 'x queue =
  present :: "'x list"
  arriving :: "'x list"
  calls :: "receive list"

text \<open>\<^verbatim>\<open>PartialRollout.__init__\<close>.\<close>

definition PartialRollout_init :: "('o, 'a, 'v, 's, 'g, 'f) PartialRollout" where
  "PartialRollout_init =
     \<lparr>states = [], actions = [], rewards = [], values' = [], ss = [], gs = [],
      features = [], manager_r = 0, worker_r = 0, terminal = False\<rparr>"

subsection \<open>The linear filter and \<^verbatim>\<open>discount\<close>\<close>

text \<open>
  \<^verbatim>\<open>scipy.signal.lfilter(b, a, x)\<close> is library code; it is modelled by the difference
  equation of its documentation, from rest:
  \<^verbatim>\<open>a[0]*y[n] = b[0]*x[n] + b[1]*x[n-1] + ... - a[1]*y[n-1] - a[2]*y[n-2] - ...\<close>
  \<open>dot cs vs\<close> pairs coefficients with past samples, most recent first, and stops
  at the shorter list (samples before the start are zero).
\<close>

fun dot :: "real list \<Rightarrow> real list \<Rightarrow> real" where
  "dot (c # cs) (v # vs) = c * v + dot cs vs"
| "dot _ _ = 0"

text \<open>
  \<open>lfilter_from b a0 ar xp yp xs\<close> filters the remaining input \<open>xs\<close>; \<open>xp\<close> and \<open>yp\<close>
  are the inputs and outputs already seen, most recent first.
\<close>

fun lfilter_from ::
  "real list \<Rightarrow> real \<Rightarrow> real list \<Rightarrow> real list \<Rightarrow> real list \<Rightarrow> real list \<Rightarrow> real list" where
  "lfilter_from b a0 ar xp yp [] = []"
| "lfilter_from b a0 ar xp yp (x # xs) =
     (let y = (dot b (x # xp) - dot ar yp) / a0
      in y # lfilter_from b a0 ar (x # xp) (y # yp) xs)"

text \<open>
  The library rejects an empty denominator; \<^verbatim>\<open>discount\<close> always passes
  \<^verbatim>\<open>[1, -gamma]\<close>, so that branch is never taken.
\<close>

definition lfilter :: "real list \<Rightarrow> real list \<Rightarrow> real list \<Rightarrow> real list" where
  "lfilter b a x = (case a of [] \<Rightarrow> [] | a0 # ar \<Rightarrow> lfilter_from b a0 ar [] [] x)"

text \<open>
  \<^verbatim>\<open>def discount(x, gamma):
    return scipy.signal.lfilter([1], [1, -gamma], x[::-1], axis=0)[::-1]\<close>
\<close>

definition discount :: "real list \<Rightarrow> real \<Rightarrow> real list" where
  "discount x gamma = rev (lfilter [1] [1, - gamma] (rev x))"

subsection \<open>\<^verbatim>\<open>process_rollout\<close>\<close>

text \<open>
  The function has no \<^verbatim>\<open>raise\<close> and no \<^verbatim>\<open>assert\<close>, and none of its calls fails on
  lists of any length, so it is a total function into \<open>Batch\<close>. The slice
  \<^verbatim>\<open>[:-1]\<close> is \<open>butlast\<close>. The parameter \<^verbatim>\<open>lambda_\<close> (default 1.0) is \<open>lambda'\<close>.
  The local \<^verbatim>\<open>rewards\<close> of the source is never read and is left out.
\<close>

definition process_rollout ::
  "('o, 'a, 'v, 's, 'g, 'f) PartialRollout \<Rightarrow> real \<Rightarrow> real \<Rightarrow> real
     \<Rightarrow> ('o, 'a, 's, 'g, 'f) Batch" where
  "process_rollout rollout manager_gamma worker_gamma lambda' =
     (let batch_si = states rollout;
          batch_a' = actions rollout;
          manager_rewards_plus_v = rewards rollout @ [manager_r rollout];
          worker_rewards_plus_v = rewards rollout @ [worker_r rollout];
          batch_manager_r = butlast (discount manager_rewards_plus_v manager_gamma);
          batch_worker_r = butlast (discount worker_rewards_plus_v worker_gamma);
          batch_s' = ss rollout;
          batch_g' = gs rollout;
          features' = features rollout
      in \<lparr>obs = batch_si, batch_a = batch_a', manager_returns = batch_manager_r,
          worker_returns = batch_worker_r, batch_terminal = terminal rollout,
          batch_s = batch_s', batch_g = batch_g', batch_features = features'\<rparr>)"

subsection \<open>\<^verbatim>\<open>PartialRollout.add\<close> and \<^verbatim>\<open>PartialRollout.extend\<close>\<close>

text \<open>
  Both methods update the receiver in place; the model returns the updated
  receiver. \<^verbatim>\<open>xs += [x]\<close> and \<^verbatim>\<open>xs.extend(ys)\<close> append. The parameters of \<open>add\<close>
  stand in the order of the source: \<^verbatim>\<open>state, action, reward, value, g, s, terminal,
  features\<close>.
\<close>

definition add ::
  "('o, 'a, 'v, 's, 'g, 'f) PartialRollout \<Rightarrow> 'o \<Rightarrow> 'a \<Rightarrow> real \<Rightarrow> 'v \<Rightarrow> 'g \<Rightarrow> 's \<Rightarrow> bool \<Rightarrow> 'f
     \<Rightarrow> ('o, 'a, 'v, 's, 'g, 'f) PartialRollout" where
  "add self state action reward value' g s terminal' features' =
     \<lparr>states = states self @ [state],
      actions = actions self @ [action],
      rewards = rewards self @ [reward],
      values' = values' self @ [value'],
      ss = ss self @ [s],
      gs = gs self @ [g],
      features = features self @ [features'],
      manager_r = manager_r self,
      worker_r = worker_r self,
      terminal = terminal'\<rparr>"

text \<open>
  \<^verbatim>\<open>assert not self.terminal\<close> is the only statement of \<open>extend\<close> that can fail; it
  runs first, so a rejected call changes nothing.
\<close>

definition extend ::
  "('o, 'a, 'v, 's, 'g, 'f) PartialRollout \<Rightarrow> ('o, 'a, 'v, 's, 'g, 'f) PartialRollout
     \<Rightarrow> error + ('o, 'a, 'v, 's, 'g, 'f) PartialRollout" where
  "extend self other =
     (if terminal self then Inl AssertionError
      else Inr
        \<lparr>states = states self @ states other,
         actions = actions self @ actions other,
         rewards = rewards self @ rewards other,
         values' = values' self @ values' other,
         ss = ss self @ ss other,
         gs = gs self @ gs other,
         features = features self @ features other,
         manager_r = manager_r other,
         worker_r = worker_r other,
         terminal = terminal other\<rparr>)"

text \<open>
  A sequence of calls of \<open>add\<close> on one fragment, each transition a tuple of the
  eight arguments.
\<close>

fun add_all ::
  "('o, 'a, 'v, 's, 'g, 'f) PartialRollout \<Rightarrow> ('o \<times> 'a \<times> real \<times> 'v \<times> 'g \<times> 's \<times> bool \<times> 'f) list
     \<Rightarrow> ('o, 'a, 'v, 's, 'g, 'f) PartialRollout" where
  "add_all self [] = self"
| "add_all self ((state, action, reward, value', g, s, terminal', features') # ts) =
     add_all (add self state action reward value' g s terminal' features') ts"

subsection \<open>The queue and \<^verbatim>\<open>pull_batch_from_queue\<close>\<close>

text \<open>
  \<^verbatim>\<open>get(timeout=t)\<close> takes the oldest fragment present; on an empty queue it
  waits, and takes the first fragment that arrives; when none arrives within the
  timeout it raises \<^verbatim>\<open>queue.Empty\<close>. The result is the outcome of the call and
  the queue after it.
\<close>

definition queue_get :: "real \<Rightarrow> 'x queue \<Rightarrow> (error + 'x) \<times> 'x queue" where
  "queue_get timeout q =
     (case present q of
        x # p \<Rightarrow> (Inr x, q\<lparr>present := p, calls := calls q @ [Get timeout]\<rparr>)
      | [] \<Rightarrow>
          (case arriving q of
             x # ar \<Rightarrow> (Inr x, q\<lparr>arriving := ar, calls := calls q @ [Get timeout]\<rparr>)
           | [] \<Rightarrow> (Inl Empty, q\<lparr>calls := calls q @ [Get timeout]\<rparr>)))"

text \<open>
  \<^verbatim>\<open>get_nowait()\<close> never waits: on an empty queue it raises \<^verbatim>\<open>queue.Empty\<close> at
  once, whatever is to arrive.
\<close>

definition queue_get_nowait :: "'x queue \<Rightarrow> (error + 'x) \<times> 'x queue" where
  "queue_get_nowait q =
     (case present q of
        x # p \<Rightarrow> (Inr x, q\<lparr>present := p, calls := calls q @ [GetNowait]\<rparr>)
      | [] \<Rightarrow> (Inl Empty, q\<lparr>calls := calls q @ [GetNowait]\<rparr>))"

text \<open>
  The \<^verbatim>\<open>while not rollout.terminal\<close> loop. The \<^verbatim>\<open>try\<close> block catches
  \<^verbatim>\<open>queue.Empty\<close> only, and leaves the loop then; the assertion of \<open>extend\<close> would
  propagate. The result is the rollout, or the exception, and the queue as the
  loop leaves it.
\<close>

function pull_loop ::
  "('o, 'a, 'v, 's, 'g, 'f) PartialRollout \<Rightarrow> ('o, 'a, 'v, 's, 'g, 'f) PartialRollout queue
     \<Rightarrow> (error + ('o, 'a, 'v, 's, 'g, 'f) PartialRollout)
         \<times> ('o, 'a, 'v, 's, 'g, 'f) PartialRollout queue" where
  "pull_loop rollout q =
     (if \<not> terminal rollout then
        (case queue_get_nowait q of
           (Inl Empty, q') \<Rightarrow> (Inr rollout, q')
         | (Inl AssertionError, q') \<Rightarrow> (Inl AssertionError, q')
         | (Inr other, q') \<Rightarrow>
             (case extend rollout other of
                Inl e \<Rightarrow> (Inl e, q')
              | Inr rollout' \<Rightarrow> pull_loop rollout' q'))
      else (Inr rollout, q))"
  by pat_completeness auto
termination
  by (relation "measure (\<lambda>(rollout, q). length (present q))")
     (auto simp: queue_get_nowait_def split: list.splits)

declare pull_loop.simps [simp del]

text \<open>
  \<^verbatim>\<open>rollout = self.runner.queue.get(timeout=600.0)\<close>, not in any \<^verbatim>\<open>try\<close>, and
  the loop.
\<close>

definition pull_batch_from_queue ::
  "('o, 'a, 'v, 's, 'g, 'f) PartialRollout queue
     \<Rightarrow> (error + ('o, 'a, 'v, 's, 'g, 'f) PartialRollout)
         \<times> ('o, 'a, 'v, 's, 'g, 'f) PartialRollout queue" where
  "pull_batch_from_queue q =
     (case queue_get 600 q of
        (Inl e, q') \<Rightarrow> (Inl e, q')
      | (Inr rollout, q') \<Rightarrow> pull_loop rollout q')"

text \<open>
  The in-order merge of a list of fragments, in the words of the specification:
  every per-step sequence is the concatenation of the fragments' sequences, and
  the terminal flag and the bootstrap values are those of the last fragment.
\<close>

definition merge_in_order ::
  "('o, 'a, 'v, 's, 'g, 'f) PartialRollout list \<Rightarrow> ('o, 'a, 'v, 's, 'g, 'f) PartialRollout" where
  "merge_in_order fs =
     \<lparr>states = concat (map states fs),
      actions = concat (map actions fs),
      rewards = concat (map rewards fs),
      values' = concat (map values' fs),
      ss = concat (map ss fs),
      gs = concat (map gs fs),
      features = concat (map features fs),
      manager_r = manager_r (last fs),
      worker_r = worker_r (last fs),
      terminal = terminal (last fs)\<rparr>"

subsection \<open>\<^verbatim>\<open>env_runner\<close>\<close>

text \<open>\<^verbatim>\<open>deque(maxlen=n).append(x)\<close>: the oldest entries fall out on the left.\<close>

definition deque_append :: "nat \<Rightarrow> 'x list \<Rightarrow> 'x \<Rightarrow> 'x list" where
  "deque_append maxlen d x = drop (length (d @ [x]) - maxlen) (d @ [x])"

text \<open>The statements of \<open>env_runner\<close> before its \<^verbatim>\<open>while True\<close>.\<close>

definition env_runner_init ::
  "('o, 'a, 'v, 's, 'g, 'f, 'c, 'e) collaborators \<Rightarrow> 'e \<Rightarrow> ('o, 'f, 'c, 'e) runner_state" where
  "env_runner_init c e =
     (case env_reset c e of (state, e') \<Rightarrow>
      (case policy_get_initial_features c of (c_g, features') \<Rightarrow>
        \<lparr>env_state = e', last_state = state, last_c_g = c_g, last_features = features',
         length' = 0, rewards' = 0, reward_list = []\<rparr>))"

text \<open>
  The \<^verbatim>\<open>for local_step_iter in range(num_local_steps)\<close> loop, the first argument
  after the collaborators counting the iterations left. The result is
  \<^verbatim>\<open>terminal_end\<close>, the rollout and the generator's variables.
\<close>

fun env_runner_collect ::
  "('o, 'a, 'v, 's, 'g, 'f, 'c, 'e) collaborators \<Rightarrow> nat \<Rightarrow> ('o, 'f, 'c, 'e) runner_state
     \<Rightarrow> ('o, 'a, 'v, 's, 'g, 'f) PartialRollout
     \<Rightarrow> bool \<times> ('o, 'a, 'v, 's, 'g, 'f) PartialRollout \<times> ('o, 'f, 'c, 'e) runner_state" where
  "env_runner_collect c 0 st rollout = (False, rollout, st)"
| "env_runner_collect c (Suc k) st rollout =
     (case policy_act c (last_state st) (last_c_g st) (last_features st) of
        (action, value', g, s, c_g', features') \<Rightarrow>
     (case env_step c (env_state st) (action_argmax c action) of
        ((state, reward, terminal'), e') \<Rightarrow>
       (let rollout' = add rollout (last_state st) action reward value' g s terminal'
                         (last_features st);
            length1 = length' st + 1;
            rewards1 = rewards' st + reward;
            st1 = st\<lparr>env_state := e', last_state := state, last_c_g := c_g',
                    last_features := features', length' := length1, rewards' := rewards1\<rparr>
        in if terminal' \<or> env_timestep_limit c \<le> length1 then
             (let st2 = (if env_timestep_limit c \<le> length1 \<or> \<not> env_autoreset c
                         then (case env_reset c e' of (state0, e0) \<Rightarrow>
                                 st1\<lparr>env_state := e0, last_state := state0\<rparr>)
                         else st1);
                  st3 = (case policy_get_initial_features c of (c_g0, features0) \<Rightarrow>
                           st2\<lparr>last_c_g := c_g0, last_features := features0,
                               reward_list := deque_append 30 (reward_list st2) rewards1,
                               length' := 0, rewards' := 0\<rparr>)
              in (True, rollout', st3))
           else env_runner_collect c k st1 rollout')))"

text \<open>
  One iteration of \<^verbatim>\<open>while True\<close>, up to its \<^verbatim>\<open>yield rollout\<close>: what one
  \<^verbatim>\<open>next(rollout_provider)\<close> of the runner thread computes.
\<close>

definition env_runner_next ::
  "('o, 'a, 'v, 's, 'g, 'f, 'c, 'e) collaborators \<Rightarrow> nat \<Rightarrow> ('o, 'f, 'c, 'e) runner_state
     \<Rightarrow> ('o, 'a, 'v, 's, 'g, 'f) PartialRollout \<times> ('o, 'f, 'c, 'e) runner_state" where
  "env_runner_next c num_local_steps st =
     (case env_runner_collect c num_local_steps st PartialRollout_init of
        (terminal_end, rollout, st') \<Rightarrow>
          (if \<not> terminal_end then
             (case policy_value c (last_state st') (last_c_g st') (last_features st') of
                (m, w) \<Rightarrow> (rollout\<lparr>manager_r := m, worker_r := w\<rparr>, st'))
           else (rollout, st')))"

text \<open>
  The generator itself: the first \<open>k\<close> fragments it yields from the state \<open>st\<close>,
  in the order in which the runner thread puts them on the queue.
\<close>

fun env_runner_fragments ::
  "('o, 'a, 'v, 's, 'g, 'f, 'c, 'e) collaborators \<Rightarrow> nat \<Rightarrow> ('o, 'f, 'c, 'e) runner_state \<Rightarrow> nat
     \<Rightarrow> ('o, 'a, 'v, 's, 'g, 'f) PartialRollout list" where
  "env_runner_fragments c num_local_steps st 0 = []"
| "env_runner_fragments c num_local_steps st (Suc k) =
     (case env_runner_next c num_local_steps st of
        (rollout, st') \<Rightarrow> rollout # env_runner_fragments c num_local_steps st' k)"

section \<open>Properties\<close>

subsection \<open>The discounted sum\<close>

lemma lfilter_from_append:
  "lfilter_from b a0 ar xp yp (xs @ zs) =
     lfilter_from b a0 ar xp yp xs @
     lfilter_from b a0 ar (rev xs @ xp) (rev (lfilter_from b a0 ar xp yp xs) @ yp) zs"
  by (induction xs arbitrary: xp yp) (simp_all add: Let_def)

lemma discount_Nil: "discount [] gamma = []"
  by (simp add: discount_def lfilter_def)

lemma discount_Cons:
  "discount (x # xs) gamma =
     (x + gamma * (case discount xs gamma of [] \<Rightarrow> 0 | y # _ \<Rightarrow> y)) # discount xs gamma"
proof -
  let ?ys = "lfilter_from [1] 1 [- gamma] [] [] (rev xs)"
  have "lfilter [1] [1, - gamma] (rev (x # xs)) =
          ?ys @ lfilter_from [1] 1 [- gamma] (xs @ []) (rev ?ys @ []) [x]"
    by (simp add: lfilter_def lfilter_from_append)
  moreover have "dot [- gamma] (rev ?ys) = - gamma * (case rev ?ys of [] \<Rightarrow> 0 | y # _ \<Rightarrow> y)"
    by (cases "rev ?ys") simp_all
  ultimately show ?thesis
    by (simp add: discount_def lfilter_def Let_def)
qed

lemma length_discount: "length (discount x gamma) = length x"
  by (induction x) (simp_all add: discount_Nil discount_Cons)

lemma discount_nth:
  "i < length x \<Longrightarrow>
     discount x gamma ! i =
       x ! i + gamma * (if Suc i < length x then discount x gamma ! Suc i else 0)"
proof (induction x arbitrary: i)
  case Nil
  then show ?case by simp
next
  case (Cons r x)
  show ?case
  proof (cases i)
    case 0
    show ?thesis
    proof (cases "discount x gamma")
      case Nil
      then have "x = []" using length_discount [of x gamma] by simp
      with 0 show ?thesis by (simp add: discount_Cons discount_Nil)
    next
      case (Cons y ys)
      then have "x \<noteq> []" using discount_Nil [of gamma] by auto
      with 0 Cons show ?thesis by (simp add: discount_Cons)
    qed
  next
    case (Suc j)
    with Cons.prems have "j < length x" by simp
    from Cons.IH [OF this] Suc show ?thesis by (simp add: discount_Cons)
  qed
qed

text \<open>
  The returns of one stream: the bootstrap value \<open>v\<close> appended to the rewards, one
  pass of \<open>discount\<close>, the last element dropped.
\<close>

lemma returns_length: "length (butlast (discount (rs @ [v]) gamma)) = length rs"
  by (simp add: length_discount)

lemma returns_last:
  assumes "rs \<noteq> []"
  shows "butlast (discount (rs @ [v]) gamma) ! (length rs - 1) =
           rs ! (length rs - 1) + gamma * v"
proof -
  let ?D = "discount (rs @ [v]) gamma"
  let ?n = "length rs"
  from assms have n: "?n - 1 < ?n" "Suc (?n - 1) = ?n" by simp_all
  have "butlast ?D ! (?n - 1) = ?D ! (?n - 1)"
    using n by (simp add: nth_butlast length_discount)
  also have "\<dots> = (rs @ [v]) ! (?n - 1) + gamma * ?D ! ?n"
    using discount_nth [of "?n - 1" "rs @ [v]" gamma] n by simp
  also have "?D ! ?n = v"
    using discount_nth [of ?n "rs @ [v]" gamma] by simp
  also have "(rs @ [v]) ! (?n - 1) = rs ! (?n - 1)"
    using n by (simp add: nth_append)
  finally show ?thesis .
qed

lemma returns_step:
  assumes "Suc i < length rs"
  shows "butlast (discount (rs @ [v]) gamma) ! i =
           rs ! i + gamma * butlast (discount (rs @ [v]) gamma) ! Suc i"
proof -
  let ?D = "discount (rs @ [v]) gamma"
  have "butlast ?D ! i = ?D ! i" "butlast ?D ! Suc i = ?D ! Suc i"
    using assms by (simp_all add: nth_butlast length_discount)
  moreover have "?D ! i = (rs @ [v]) ! i + gamma * ?D ! Suc i"
    using discount_nth [of i "rs @ [v]" gamma] assms by simp
  moreover have "(rs @ [v]) ! i = rs ! i"
    using assms by (simp add: nth_append)
  ultimately show ?thesis by simp
qed

lemma returns_last_elem:
  assumes "rs \<noteq> []"
  shows "last (butlast (discount (rs @ [v]) gamma)) = last rs + gamma * v"
proof -
  have ne: "butlast (discount (rs @ [v]) gamma) \<noteq> []"
    using assms returns_length [of rs v gamma] by (metis length_0_conv)
  show ?thesis
    using returns_last [OF assms, of v gamma] assms
    by (simp add: last_conv_nth [OF ne] last_conv_nth [OF assms] length_discount)
qed

subsection \<open>Claims about \<^verbatim>\<open>process_rollout\<close>\<close>

text \<open>
  C1. For a rollout with rewards \<open>r[0..n-1]\<close>, \<open>n \<ge> 1\<close>, each return stream of the
  batch is the rewards with the stream's bootstrap value appended, discounted in
  one pass, the appended element dropped; it has \<open>n\<close> elements and satisfies the
  backward recurrence \<open>returns[n-1] = r[n-1] + gamma * V\<close> and
  \<open>returns[i] = r[i] + gamma * returns[i+1]\<close> for \<open>i < n - 1\<close>, the manager stream
  with \<open>manager_r\<close> and \<open>manager_gamma\<close>, the worker stream with \<open>worker_r\<close> and
  \<open>worker_gamma\<close>.
\<close>

theorem process_rollout_recurrence:
  assumes "rewards rollout \<noteq> []"
  shows "manager_returns (process_rollout rollout mg wg lam) =
           butlast (discount (rewards rollout @ [manager_r rollout]) mg)
       \<and> worker_returns (process_rollout rollout mg wg lam) =
           butlast (discount (rewards rollout @ [worker_r rollout]) wg)
       \<and> length (manager_returns (process_rollout rollout mg wg lam)) = length (rewards rollout)
       \<and> length (worker_returns (process_rollout rollout mg wg lam)) = length (rewards rollout)
       \<and> manager_returns (process_rollout rollout mg wg lam) ! (length (rewards rollout) - 1) =
           rewards rollout ! (length (rewards rollout) - 1) + mg * manager_r rollout
       \<and> worker_returns (process_rollout rollout mg wg lam) ! (length (rewards rollout) - 1) =
           rewards rollout ! (length (rewards rollout) - 1) + wg * worker_r rollout
       \<and> (\<forall>i. Suc i < length (rewards rollout) \<longrightarrow>
            manager_returns (process_rollout rollout mg wg lam) ! i =
              rewards rollout ! i + mg * manager_returns (process_rollout rollout mg wg lam) ! Suc i)
       \<and> (\<forall>i. Suc i < length (rewards rollout) \<longrightarrow>
            worker_returns (process_rollout rollout mg wg lam) ! i =
              rewards rollout ! i + wg * worker_returns (process_rollout rollout mg wg lam) ! Suc i)"
proof -
  have m: "manager_returns (process_rollout rollout mg wg lam) =
             butlast (discount (rewards rollout @ [manager_r rollout]) mg)"
    by (simp add: process_rollout_def)
  have w: "worker_returns (process_rollout rollout mg wg lam) =
             butlast (discount (rewards rollout @ [worker_r rollout]) wg)"
    by (simp add: process_rollout_def)
  show ?thesis
    unfolding m w
    using returns_last [OF assms] returns_step [of _ "rewards rollout"]
    by (simp add: length_discount)
qed

text \<open>
  A rollout of three steps with rewards \<open>[1, 2, 3]\<close>: the manager stream with
  factor \<open>1/2\<close> and bootstrap \<open>0\<close>, the worker stream with factor \<open>1\<close> and
  bootstrap \<open>4\<close>.
\<close>

theorem process_rollout_recurrence_witness:
  "rewards (\<lparr>states = [0, 1, 2 :: nat], actions = [0, 1, 0 :: nat], rewards = [1, 2, 3],
       values' = [0, 0, 0 :: real], ss = [(), (), ()], gs = [(), (), ()],
       features = [(), (), ()], manager_r = 0, worker_r = 4, terminal = False\<rparr>) \<noteq> []
   \<and> manager_returns (process_rollout
       \<lparr>states = [0, 1, 2 :: nat], actions = [0, 1, 0 :: nat], rewards = [1, 2, 3],
        values' = [0, 0, 0 :: real], ss = [(), (), ()], gs = [(), (), ()],
        features = [(), (), ()], manager_r = 0, worker_r = 4, terminal = False\<rparr>
       (1 / 2) 1 1) = [11 / 4, 7 / 2, 3]
   \<and> worker_returns (process_rollout
       \<lparr>states = [0, 1, 2 :: nat], actions = [0, 1, 0 :: nat], rewards = [1, 2, 3],
        values' = [0, 0, 0 :: real], ss = [(), (), ()], gs = [(), (), ()],
        features = [(), (), ()], manager_r = 0, worker_r = 4, terminal = False\<rparr>
       (1 / 2) 1 1) = [10, 9, 7]"
  using process_rollout_recurrence
    [of "\<lparr>states = [0, 1, 2 :: nat], actions = [0, 1, 0 :: nat], rewards = [1, 2, 3],
          values' = [0, 0, 0 :: real], ss = [(), (), ()], gs = [(), (), ()],
          features = [(), (), ()], manager_r = 0, worker_r = 4, terminal = False\<rparr>"
        "1 / 2" 1 1]
  by (simp add: process_rollout_def discount_Cons discount_Nil)

text \<open>
  C6. For a rollout whose per-step sequences all have length \<open>n \<ge> 1\<close>, the
  sequences \<open>obs\<close>, \<open>a\<close>, \<open>manager_returns\<close>, \<open>worker_returns\<close>, \<open>s\<close> and \<open>g\<close> of the
  batch all have length \<open>n\<close>.
\<close>

theorem process_rollout_shape:
  assumes "1 \<le> n"
    and "length (states rollout) = n" and "length (actions rollout) = n"
    and "length (rewards rollout) = n" and "length (values' rollout) = n"
    and "length (ss rollout) = n" and "length (gs rollout) = n"
    and "length (features rollout) = n"
  shows "length (obs (process_rollout rollout mg wg lam)) = n
       \<and> length (batch_a (process_rollout rollout mg wg lam)) = n
       \<and> length (manager_returns (process_rollout rollout mg wg lam)) = n
       \<and> length (worker_returns (process_rollout rollout mg wg lam)) = n
       \<and> length (batch_s (process_rollout rollout mg wg lam)) = n
       \<and> length (batch_g (process_rollout rollout mg wg lam)) = n"
  using assms by (simp add: process_rollout_def length_discount)

theorem process_rollout_shape_witness:
  "length (obs (process_rollout
       \<lparr>states = [5, 6 :: nat], actions = [1, 0 :: nat], rewards = [1, 1],
        values' = [0, 0 :: real], ss = [(), ()], gs = [(), ()],
        features = [(), ()], manager_r = 4, worker_r = 4, terminal = False\<rparr>
       1 1 1)) = 2
   \<and> length (manager_returns (process_rollout
       \<lparr>states = [5, 6 :: nat], actions = [1, 0 :: nat], rewards = [1, 1],
        values' = [0, 0 :: real], ss = [(), ()], gs = [(), ()],
        features = [(), ()], manager_r = 4, worker_r = 4, terminal = False\<rparr>
       1 1 1)) = 2
   \<and> length (batch_g (process_rollout
       \<lparr>states = [5, 6 :: nat], actions = [1, 0 :: nat], rewards = [1, 1],
        values' = [0, 0 :: real], ss = [(), ()], gs = [(), ()],
        features = [(), ()], manager_r = 4, worker_r = 4, terminal = False\<rparr>
       1 1 1)) = 2"
  using process_rollout_shape
    [of 2 "\<lparr>states = [5, 6 :: nat], actions = [1, 0 :: nat], rewards = [1, 1],
          values' = [0, 0 :: real], ss = [(), ()], gs = [(), ()],
          features = [(), ()], manager_r = 4, worker_r = 4, terminal = False\<rparr>" 1 1 1]
  by simp

text \<open>
  C10. The batch does not depend on the rollout's value estimates nor on
  \<open>lambda_\<close>: two rollouts that differ in their \<open>values\<close> only, with any two
  values of \<open>lambda_\<close>, give the same batch.
\<close>

theorem process_rollout_ignores_values_lambda:
  "process_rollout (rollout\<lparr>values' := vs\<rparr>) mg wg lam1 = process_rollout rollout mg wg lam2"
  by (simp add: process_rollout_def)

text \<open>
  C3, as the code has it. On a rollout of zero steps \<open>process_rollout\<close> raises
  nothing: it returns, for any bootstrap values, factors and \<open>lambda_\<close>, a batch
  whose per-step sequences are all empty and whose terminal flag is the
  rollout's.
\<close>

theorem process_rollout_empty:
  "process_rollout
     \<lparr>states = [], actions = [], rewards = [], values' = [], ss = [], gs = [],
      features = [], manager_r = vm, worker_r = vw, terminal = t\<rparr> mg wg lam =
   \<lparr>obs = [], batch_a = [], manager_returns = [], worker_returns = [],
    batch_terminal = t, batch_s = [], batch_g = [], batch_features = []\<rparr>"
  by (simp add: process_rollout_def discount_Cons discount_Nil)

text \<open>
  C3 as stated fails: on the fresh \<open>PartialRollout()\<close>, with both factors \<open>99/100\<close>
  and the default \<open>lambda_ = 1\<close>, the call returns the batch of empty sequences.
\<close>

theorem process_rollout_empty_counterexample:
  "process_rollout (PartialRollout_init :: (nat, nat, real, unit, unit, unit) PartialRollout)
     (99 / 100) (99 / 100) 1 =
   \<lparr>obs = [], batch_a = [], manager_returns = [], worker_returns = [],
    batch_terminal = False, batch_s = [], batch_g = [], batch_features = []\<rparr>"
  by (simp add: process_rollout_def PartialRollout_init_def discount_Cons discount_Nil)

subsection \<open>Claims about \<open>add\<close> and \<open>extend\<close>\<close>

lemma add_all_snoc:
  "add_all self (ts @ [(state, action, reward, value', g, s, terminal', features')]) =
     add (add_all self ts) state action reward value' g s terminal' features'"
  by (induction self ts rule: add_all.induct) simp_all

text \<open>
  C4. \<open>A.extend(B)\<close> raises the assertion error exactly when \<open>A.terminal\<close> is
  true, and succeeds exactly when it is false.
\<close>

theorem extend_precondition:
  "(extend A B = Inl AssertionError) = terminal A
   \<and> (\<exists>A'. extend A B = Inr A') = (\<not> terminal A)"
  by (simp add: extend_def)

theorem extend_precondition_witness:
  "extend
     \<lparr>states = [0 :: nat], actions = [0 :: nat], rewards = [1], values' = [0 :: real],
      ss = [()], gs = [()], features = [()], manager_r = 0, worker_r = 0, terminal = True\<rparr>
     \<lparr>states = [1], actions = [1], rewards = [2], values' = [0],
      ss = [()], gs = [()], features = [()], manager_r = 3, worker_r = 4, terminal = False\<rparr>
   = Inl AssertionError
   \<and> (\<exists>A'. extend
     \<lparr>states = [0 :: nat], actions = [0 :: nat], rewards = [1], values' = [0 :: real],
      ss = [()], gs = [()], features = [()], manager_r = 0, worker_r = 0, terminal = False\<rparr>
     \<lparr>states = [1], actions = [1], rewards = [2], values' = [0],
      ss = [()], gs = [()], features = [()], manager_r = 3, worker_r = 4, terminal = False\<rparr>
   = Inr A')"
  using extend_precondition
    [of "\<lparr>states = [0 :: nat], actions = [0 :: nat], rewards = [1], values' = [0 :: real],
          ss = [()], gs = [()], features = [()], manager_r = 0, worker_r = 0, terminal = True\<rparr>"
        "\<lparr>states = [1], actions = [1], rewards = [2], values' = [0],
          ss = [()], gs = [()], features = [()], manager_r = 3, worker_r = 4, terminal = False\<rparr>"]
    extend_precondition
    [of "\<lparr>states = [0 :: nat], actions = [0 :: nat], rewards = [1], values' = [0 :: real],
          ss = [()], gs = [()], features = [()], manager_r = 0, worker_r = 0, terminal = False\<rparr>"
        "\<lparr>states = [1], actions = [1], rewards = [2], values' = [0],
          ss = [()], gs = [()], features = [()], manager_r = 3, worker_r = 4, terminal = False\<rparr>"]
  by simp

text \<open>
  C5. For a non-terminal fragment \<open>A\<close> and any fragment \<open>B\<close>, \<open>A.extend(B)\<close>
  succeeds and leaves in \<open>A\<close> every per-step sequence of \<open>A\<close> followed by that of
  \<open>B\<close>, with the terminal flag and both bootstrap values of \<open>B\<close>. When \<open>B\<close> is
  non-terminal too, merging \<open>B\<close> and then \<open>C\<close> into \<open>A\<close> gives the same fragment as
  merging \<open>C\<close> into \<open>B\<close> and the result into \<open>A\<close>.
\<close>

theorem extend_concat_assoc:
  assumes "\<not> terminal A"
  shows "extend A B = Inr
           \<lparr>states = states A @ states B,
            actions = actions A @ actions B,
            rewards = rewards A @ rewards B,
            values' = values' A @ values' B,
            ss = ss A @ ss B,
            gs = gs A @ gs B,
            features = features A @ features B,
            manager_r = manager_r B,
            worker_r = worker_r B,
            terminal = terminal B\<rparr>
       \<and> (\<not> terminal B \<longrightarrow>
            (case extend A B of Inl e \<Rightarrow> Inl e | Inr AB \<Rightarrow> extend AB C) =
            (case extend B C of Inl e \<Rightarrow> Inl e | Inr BC \<Rightarrow> extend A BC)
          \<and> (\<exists>ABC. (case extend A B of Inl e \<Rightarrow> Inl e | Inr AB \<Rightarrow> extend AB C) = Inr ABC))"
  using assms by (simp add: extend_def)

theorem extend_concat_assoc_witness:
  "(case extend
       \<lparr>states = [0 :: nat], actions = [0 :: nat], rewards = [1], values' = [0 :: real],
        ss = [()], gs = [()], features = [()], manager_r = 1, worker_r = 2, terminal = False\<rparr>
       \<lparr>states = [1], actions = [1], rewards = [2], values' = [0],
        ss = [()], gs = [()], features = [()], manager_r = 3, worker_r = 4, terminal = False\<rparr>
    of Inl e \<Rightarrow> Inl e
     | Inr AB \<Rightarrow> extend AB
       \<lparr>states = [2, 3], actions = [0, 1], rewards = [3, 4], values' = [0, 0],
        ss = [(), ()], gs = [(), ()], features = [(), ()], manager_r = 0, worker_r = 0,
        terminal = True\<rparr>)
   = Inr
       \<lparr>states = [0, 1, 2, 3], actions = [0, 1, 0, 1], rewards = [1, 2, 3, 4],
        values' = [0, 0, 0, 0], ss = [(), (), (), ()], gs = [(), (), (), ()],
        features = [(), (), (), ()], manager_r = 0, worker_r = 0, terminal = True\<rparr>
   \<and> (case extend
       \<lparr>states = [1], actions = [1], rewards = [2], values' = [0],
        ss = [()], gs = [()], features = [()], manager_r = 3, worker_r = 4, terminal = False\<rparr>
       \<lparr>states = [2, 3], actions = [0, 1], rewards = [3, 4], values' = [0, 0],
        ss = [(), ()], gs = [(), ()], features = [(), ()], manager_r = 0, worker_r = 0,
        terminal = True\<rparr>
    of Inl e \<Rightarrow> Inl e
     | Inr BC \<Rightarrow> extend
       \<lparr>states = [0 :: nat], actions = [0 :: nat], rewards = [1], values' = [0 :: real],
        ss = [()], gs = [()], features = [()], manager_r = 1, worker_r = 2, terminal = False\<rparr>
       BC)
   = Inr
       \<lparr>states = [0, 1, 2, 3], actions = [0, 1, 0, 1], rewards = [1, 2, 3, 4],
        values' = [0, 0, 0, 0], ss = [(), (), (), ()], gs = [(), (), (), ()],
        features = [(), (), (), ()], manager_r = 0, worker_r = 0, terminal = True\<rparr>"
  using extend_concat_assoc
    [of "\<lparr>states = [0 :: nat], actions = [0 :: nat], rewards = [1], values' = [0 :: real],
          ss = [()], gs = [()], features = [()], manager_r = 1, worker_r = 2, terminal = False\<rparr>"
        "\<lparr>states = [1], actions = [1], rewards = [2], values' = [0],
          ss = [()], gs = [()], features = [()], manager_r = 3, worker_r = 4, terminal = False\<rparr>"
        "\<lparr>states = [2, 3], actions = [0, 1], rewards = [3, 4], values' = [0, 0],
          ss = [(), ()], gs = [(), ()], features = [(), ()], manager_r = 0, worker_r = 0,
          terminal = True\<rparr>"]
  by (simp add: extend_def)

text \<open>
  C9. Every call of \<open>add\<close> overwrites the terminal flag with that of the
  transition it appends: after a sequence of calls the flag is that of the last
  transition added, and adding a non-terminal transition to a fragment whose flag
  was true leaves it false.
\<close>

theorem add_overwrites_terminal:
  "terminal (add self state action reward value' g s t features') = t
   \<and> terminal (add_all self (ts @ [(state, action, reward, value', g, s, t, features')])) = t
   \<and> (terminal self \<longrightarrow>
        \<not> terminal (add self state action reward value' g s False features'))"
  by (simp add: add_all_snoc) (simp add: add_def)

theorem add_overwrites_terminal_witness:
  "terminal \<lparr>states = [0 :: nat], actions = [0 :: nat], rewards = [1], values' = [0 :: real],
       ss = [()], gs = [()], features = [()], manager_r = 0, worker_r = 0, terminal = True\<rparr>
   \<and> \<not> terminal (add
       \<lparr>states = [0 :: nat], actions = [0 :: nat], rewards = [1], values' = [0 :: real],
        ss = [()], gs = [()], features = [()], manager_r = 0, worker_r = 0, terminal = True\<rparr>
       1 1 2 0 () () False ())
   \<and> terminal (add_all
       \<lparr>states = [0 :: nat], actions = [0 :: nat], rewards = [1], values' = [0 :: real],
        ss = [()], gs = [()], features = [()], manager_r = 0, worker_r = 0, terminal = True\<rparr>
       ([(1, 1, 2, 0, (), (), False, ())] @ [(2, 0, 3, 0, (), (), True, ())]))"
  using add_overwrites_terminal
    [of "\<lparr>states = [0 :: nat], actions = [0 :: nat], rewards = [1], values' = [0 :: real],
          ss = [()], gs = [()], features = [()], manager_r = 0, worker_r = 0, terminal = True\<rparr>"
        1 1 2 0 "()" "()" False "()" "[]"]
    add_overwrites_terminal
    [of "\<lparr>states = [0 :: nat], actions = [0 :: nat], rewards = [1], values' = [0 :: real],
          ss = [()], gs = [()], features = [()], manager_r = 0, worker_r = 0, terminal = True\<rparr>"
        2 0 3 0 "()" "()" True "()" "[(1, 1, 2, 0, (), (), False, ())]"]
  by simp

subsection \<open>Claims about \<open>pull_batch_from_queue\<close>\<close>

lemma pull_loop_terminal: "terminal r \<Longrightarrow> pull_loop r q = (Inr r, q)"
  by (simp add: pull_loop.simps)

lemma pull_loop_empty:
  "\<not> terminal r \<Longrightarrow> present q = [] \<Longrightarrow>
     pull_loop r q = (Inr r, q\<lparr>calls := calls q @ [GetNowait]\<rparr>)"
  by (simp add: pull_loop.simps queue_get_nowait_def)

lemma pull_loop_step:
  "\<not> terminal r \<Longrightarrow> present q = x # p \<Longrightarrow>
     pull_loop r q =
       pull_loop (merge_in_order [r, x]) (q\<lparr>present := p, calls := calls q @ [GetNowait]\<rparr>)"
  by (simp add: pull_loop.simps [of r q] queue_get_nowait_def extend_def merge_in_order_def)

lemma merge_in_order_merged:
  "merge_in_order (merge_in_order [r, x] # ts) = merge_in_order (r # x # ts)"
  by (cases "ts = []") (simp_all add: merge_in_order_def)

lemma pull_loop_spec:
  "present q = p \<Longrightarrow>
   \<exists>taken rest. p = taken @ rest
     \<and> pull_loop r q =
         (Inr (merge_in_order (r # taken)),
          q\<lparr>present := rest,
            calls := calls q @
              replicate (length taken + (if terminal (last (r # taken)) then 0 else 1)) GetNowait\<rparr>)
     \<and> (\<forall>x \<in> set (butlast (r # taken)). \<not> terminal x)
     \<and> (terminal (last (r # taken)) \<or> rest = [])"
proof (induction p arbitrary: q r)
  case Nil
  show ?case
  proof (cases "terminal r")
    case True
    with Nil show ?thesis
      by (intro exI [of _ "[]"]) (simp add: pull_loop_terminal merge_in_order_def)
  next
    case False
    with Nil show ?thesis
      by (intro exI [of _ "[]"]) (simp add: pull_loop_empty merge_in_order_def)
  qed
next
  case (Cons x p)
  show ?case
  proof (cases "terminal r")
    case True
    have "q\<lparr>present := x # p, calls := calls q\<rparr> = q"
      using Cons.prems by simp
    with True show ?thesis
      by (intro exI [of _ "[]"] exI [of _ "x # p"]) (simp add: pull_loop_terminal merge_in_order_def)
  next
    case False
    let ?q = "q\<lparr>present := p, calls := calls q @ [GetNowait]\<rparr>"
    let ?r = "merge_in_order [r, x]"
    have "present ?q = p" by simp
    from Cons.IH [OF this, of ?r] obtain taken rest where
      p: "p = taken @ rest"
      and l: "pull_loop ?r ?q =
         (Inr (merge_in_order (?r # taken)),
          ?q\<lparr>present := rest,
            calls := calls ?q @
              replicate (length taken + (if terminal (last (?r # taken)) then 0 else 1)) GetNowait\<rparr>)"
      and b: "\<forall>y \<in> set (butlast (?r # taken)). \<not> terminal y"
      and e: "terminal (last (?r # taken)) \<or> rest = []"
      by blast
    have tx: "terminal ?r = terminal x"
      by (simp add: merge_in_order_def)
    have tl: "terminal (last (?r # taken)) = terminal (last (r # x # taken))"
      using tx by (cases "taken = []") simp_all
    have b': "\<forall>y \<in> set (butlast (r # x # taken)). \<not> terminal y"
      using b False tx by (cases "taken = []") auto
    have e': "terminal (last (r # x # taken)) \<or> rest = []"
      using e tl by simp
    have l': "pull_loop r q =
         (Inr (merge_in_order (r # x # taken)),
          q\<lparr>present := rest,
            calls := calls q @
              replicate (length (x # taken) + (if terminal (last (r # x # taken)) then 0 else 1))
                GetNowait\<rparr>)"
      unfolding pull_loop_step [OF False Cons.prems] l merge_in_order_merged tl
      by simp
    have p': "x # p = (x # taken) @ rest"
      using p by simp
    from p' l' b' e' show ?thesis by blast
  qed
qed

lemma pull_batch_from_queue_present:
  "present q = x # p \<Longrightarrow>
     pull_batch_from_queue q = pull_loop x (q\<lparr>present := p, calls := calls q @ [Get 600]\<rparr>)"
  by (simp add: pull_batch_from_queue_def queue_get_def)

lemma pull_batch_from_queue_arriving:
  "present q = [] \<Longrightarrow> arriving q = x # ar \<Longrightarrow>
     pull_batch_from_queue q = pull_loop x (q\<lparr>arriving := ar, calls := calls q @ [Get 600]\<rparr>)"
  by (simp add: pull_batch_from_queue_def queue_get_def)

lemma pull_batch_from_queue_timeout:
  "present q = [] \<Longrightarrow> arriving q = [] \<Longrightarrow>
     pull_batch_from_queue q = (Inl Empty, q\<lparr>calls := calls q @ [Get 600]\<rparr>)"
  by (simp add: pull_batch_from_queue_def queue_get_def)

text \<open>
  C7. \<open>pull_batch_from_queue\<close> makes exactly one blocking receive,
  \<open>get(timeout=600)\<close>, and after it only non-blocking ones. When nothing is
  present and nothing arrives within the timeout, the \<open>Empty\<close> of that receive
  is the outcome and no other call is made. When nothing is present, the blocking
  receive waits for the first arriving fragment; the loop never waits for the
  next one. When fragments are present, a non-empty prefix \<open>taken\<close> of them is
  removed, the first by the blocking receive and each other by one non-blocking
  receive, what arrives later is left alone, and the rollout returned is the
  in-order merge of \<open>taken\<close>. The loop goes on exactly while the accumulated
  fragment is not terminal and a fragment is present: every fragment of \<open>taken\<close>
  but the last is non-terminal, and at the end the last one merged (whose flag
  the accumulated fragment carries) is terminal, or nothing is present and one
  more non-blocking receive has found the queue empty.
\<close>

theorem pull_batch_from_queue_spec:
  "(present q = [] \<and> arriving q = [] \<longrightarrow>
      pull_batch_from_queue q = (Inl Empty, q\<lparr>calls := calls q @ [Get 600]\<rparr>))
   \<and> (present q = [] \<and> arriving q = x # ar \<longrightarrow>
      pull_batch_from_queue q =
        (Inr x, q\<lparr>arriving := ar,
                 calls := calls q @ Get 600 # (if terminal x then [] else [GetNowait])\<rparr>))
   \<and> (present q \<noteq> [] \<longrightarrow>
      (\<exists>taken rest. present q = taken @ rest \<and> taken \<noteq> []
         \<and> pull_batch_from_queue q =
             (Inr (merge_in_order taken),
              q\<lparr>present := rest,
                calls := calls q @ Get 600 #
                  replicate (length taken - 1 + (if terminal (last taken) then 0 else 1))
                    GetNowait\<rparr>)
         \<and> (\<forall>y \<in> set (butlast taken). \<not> terminal y)
         \<and> (terminal (last taken) \<or> rest = [])))"
proof (intro conjI impI)
  assume "present q = [] \<and> arriving q = []"
  then show "pull_batch_from_queue q = (Inl Empty, q\<lparr>calls := calls q @ [Get 600]\<rparr>)"
    by (simp add: pull_batch_from_queue_timeout)
next
  assume a: "present q = [] \<and> arriving q = x # ar"
  show "pull_batch_from_queue q =
        (Inr x, q\<lparr>arriving := ar,
                 calls := calls q @ Get 600 # (if terminal x then [] else [GetNowait])\<rparr>)"
  proof (cases "terminal x")
    case True
    with a show ?thesis
      by (simp add: pull_batch_from_queue_arriving pull_loop_terminal)
  next
    case False
    with a show ?thesis
      by (simp add: pull_batch_from_queue_arriving pull_loop_empty)
  qed
next
  assume "present q \<noteq> []"
  then obtain x p where xp: "present q = x # p" by (cases "present q") auto
  let ?q = "q\<lparr>present := p, calls := calls q @ [Get 600]\<rparr>"
  have "present ?q = p" by simp
  from pull_loop_spec [OF this, of x] obtain taken rest where
    p: "p = taken @ rest"
    and l: "pull_loop x ?q =
         (Inr (merge_in_order (x # taken)),
          ?q\<lparr>present := rest,
            calls := calls ?q @
              replicate (length taken + (if terminal (last (x # taken)) then 0 else 1)) GetNowait\<rparr>)"
    and b: "\<forall>y \<in> set (butlast (x # taken)). \<not> terminal y"
    and e: "terminal (last (x # taken)) \<or> rest = []"
    by blast
  have 1: "present q = (x # taken) @ rest" using xp p by simp
  have 2: "pull_batch_from_queue q =
             (Inr (merge_in_order (x # taken)),
              q\<lparr>present := rest,
                calls := calls q @ Get 600 #
                  replicate (length (x # taken) - 1 + (if terminal (last (x # taken)) then 0 else 1))
                    GetNowait\<rparr>)"
    unfolding pull_batch_from_queue_present [OF xp] l by simp
  from 1 2 b e
  show "\<exists>taken rest. present q = taken @ rest \<and> taken \<noteq> []
         \<and> pull_batch_from_queue q =
             (Inr (merge_in_order taken),
              q\<lparr>present := rest,
                calls := calls q @ Get 600 #
                  replicate (length taken - 1 + (if terminal (last taken) then 0 else 1))
                    GetNowait\<rparr>)
         \<and> (\<forall>y \<in> set (butlast taken). \<not> terminal y)
         \<and> (terminal (last taken) \<or> rest = [])"
    by blast
qed


theorem pull_batch_from_queue_spec_witness:
  "pull_batch_from_queue
       \<lparr>present = [] :: (nat, nat, real, unit, unit, unit) PartialRollout list,
         arriving = [], calls = []\<rparr>
     = (Inl Empty,
        \<lparr>present = [], arriving = [], calls = [Get 600]\<rparr>)
   \<and> pull_batch_from_queue
       \<lparr>present = [],
        arriving = [\<lparr>states = [0 :: nat], actions = [0 :: nat], rewards = [1], values' = [0 :: real],
         ss = [()], gs = [()], features = [()], manager_r = 1, worker_r = 2, terminal = False\<rparr>,
                    \<lparr>states = [1], actions = [1], rewards = [2], values' = [0],
         ss = [()], gs = [()], features = [()], manager_r = 0, worker_r = 0, terminal = True\<rparr>],
        calls = []\<rparr>
     = (Inr \<lparr>states = [0 :: nat], actions = [0 :: nat], rewards = [1], values' = [0 :: real],
         ss = [()], gs = [()], features = [()], manager_r = 1, worker_r = 2, terminal = False\<rparr>,
        \<lparr>present = [],
         arriving = [\<lparr>states = [1], actions = [1], rewards = [2], values' = [0],
         ss = [()], gs = [()], features = [()], manager_r = 0, worker_r = 0, terminal = True\<rparr>],
         calls = [Get 600, GetNowait]\<rparr>)
   \<and> pull_batch_from_queue
       \<lparr>present = [\<lparr>states = [0 :: nat], actions = [0 :: nat], rewards = [1], values' = [0 :: real],
         ss = [()], gs = [()], features = [()], manager_r = 1, worker_r = 2, terminal = False\<rparr>,
                   \<lparr>states = [1], actions = [1], rewards = [2], values' = [0],
         ss = [()], gs = [()], features = [()], manager_r = 0, worker_r = 0, terminal = True\<rparr>,
                   \<lparr>states = [2], actions = [0], rewards = [3], values' = [0],
         ss = [()], gs = [()], features = [()], manager_r = 5, worker_r = 6, terminal = False\<rparr>],
        arriving = [\<lparr>states = [2], actions = [0], rewards = [3], values' = [0],
         ss = [()], gs = [()], features = [()], manager_r = 5, worker_r = 6, terminal = False\<rparr>],
        calls = []\<rparr>
     = (Inr \<lparr>states = [0, 1], actions = [0, 1], rewards = [1, 2], values' = [0, 0],
         ss = [(), ()], gs = [(), ()], features = [(), ()], manager_r = 0, worker_r = 0,
         terminal = True\<rparr>,
        \<lparr>present = [\<lparr>states = [2], actions = [0], rewards = [3], values' = [0],
         ss = [()], gs = [()], features = [()], manager_r = 5, worker_r = 6, terminal = False\<rparr>],
         arriving = [\<lparr>states = [2], actions = [0], rewards = [3], values' = [0],
         ss = [()], gs = [()], features = [()], manager_r = 5, worker_r = 6, terminal = False\<rparr>],
         calls = [Get 600, GetNowait]\<rparr>)"
  using pull_batch_from_queue_spec
    [of "\<lparr>present = [] :: (nat, nat, real, unit, unit, unit) PartialRollout list,
         arriving = [], calls = []\<rparr>"]
    pull_batch_from_queue_spec
    [of "\<lparr>present = [],
        arriving = [\<lparr>states = [0 :: nat], actions = [0 :: nat], rewards = [1], values' = [0 :: real],
         ss = [()], gs = [()], features = [()], manager_r = 1, worker_r = 2, terminal = False\<rparr>,
                    \<lparr>states = [1], actions = [1], rewards = [2], values' = [0],
         ss = [()], gs = [()], features = [()], manager_r = 0, worker_r = 0, terminal = True\<rparr>],
        calls = []\<rparr>"
        "\<lparr>states = [0 :: nat], actions = [0 :: nat], rewards = [1], values' = [0 :: real],
         ss = [()], gs = [()], features = [()], manager_r = 1, worker_r = 2, terminal = False\<rparr>"
        "[\<lparr>states = [1], actions = [1], rewards = [2], values' = [0],
         ss = [()], gs = [()], features = [()], manager_r = 0, worker_r = 0, terminal = True\<rparr>]"]
    pull_batch_from_queue_spec
    [of "\<lparr>present = [\<lparr>states = [0 :: nat], actions = [0 :: nat], rewards = [1], values' = [0 :: real],
         ss = [()], gs = [()], features = [()], manager_r = 1, worker_r = 2, terminal = False\<rparr>,
                   \<lparr>states = [1], actions = [1], rewards = [2], values' = [0],
         ss = [()], gs = [()], features = [()], manager_r = 0, worker_r = 0, terminal = True\<rparr>,
                   \<lparr>states = [2], actions = [0], rewards = [3], values' = [0],
         ss = [()], gs = [()], features = [()], manager_r = 5, worker_r = 6, terminal = False\<rparr>],
        arriving = [\<lparr>states = [2], actions = [0], rewards = [3], values' = [0],
         ss = [()], gs = [()], features = [()], manager_r = 5, worker_r = 6, terminal = False\<rparr>],
        calls = []\<rparr>"]
  by (simp add: pull_batch_from_queue_present pull_loop_step pull_loop_terminal
        merge_in_order_def)

subsection \<open>Fragments out of \<open>env_runner\<close>\<close>

text \<open>
  The loop of \<open>env_runner\<close> never touches the bootstrap values, and it sets
  \<^verbatim>\<open>terminal_end\<close> whenever the step it added was terminal.
\<close>

lemma env_runner_collect_terminal:
  "env_runner_collect c k st r = (te, r', st') \<Longrightarrow> \<not> terminal r \<Longrightarrow>
     (terminal r' \<longrightarrow> te) \<and> manager_r r' = manager_r r \<and> worker_r r' = worker_r r"
proof (induction k arbitrary: st r)
  case 0
  then show ?case by simp
next
  case (Suc k)
  obtain action value' g s c_g' features' where
    a: "policy_act c (last_state st) (last_c_g st) (last_features st) =
          (action, value', g, s, c_g', features')"
    by (metis surj_pair)
  obtain state reward t e' where
    e: "env_step c (env_state st) (action_argmax c action) = ((state, reward, t), e')"
    by (metis surj_pair)
  let ?r = "add r (last_state st) action reward value' g s t (last_features st)"
  show ?case
  proof (cases "t \<or> env_timestep_limit c \<le> length' st + 1")
    case True
    with Suc.prems a e have "te" "r' = ?r"
      by (simp_all add: Let_def split: prod.splits)
    then show ?thesis by (simp add: add_def)
  next
    case False
    let ?st = "st\<lparr>env_state := e', last_state := state, last_c_g := c_g',
                  last_features := features', length' := length' st + 1,
                  rewards' := rewards' st + reward\<rparr>"
    from False Suc.prems a e have "env_runner_collect c k ?st ?r = (te, r', st')"
      by (simp add: Let_def)
    moreover from False have "\<not> terminal ?r" by (simp add: add_def)
    ultimately have "(terminal r' \<longrightarrow> te) \<and> manager_r r' = manager_r ?r \<and> worker_r r' = worker_r ?r"
      by (rule Suc.IH)
    then show ?thesis by (simp add: add_def)
  qed
qed

text \<open>
  A fragment yielded by \<open>env_runner\<close> with \<open>terminal = true\<close> still has the
  bootstrap values \<open>0\<close> that \<open>PartialRollout()\<close> gave it: \<open>policy.value\<close> is asked
  only when \<^verbatim>\<open>terminal_end\<close> is false.
\<close>

lemma env_runner_next_terminal_bootstrap:
  assumes "env_runner_next c num_local_steps st = (rollout, st')" and "terminal rollout"
  shows "manager_r rollout = 0 \<and> worker_r rollout = 0"
proof -
  obtain te r st1 where
    col: "env_runner_collect c num_local_steps st PartialRollout_init = (te, r, st1)"
    by (metis prod_cases3)
  have init: "\<not> terminal (PartialRollout_init :: ('a, 'b, 'c, 'd, 'e, 'f) PartialRollout)"
    by (simp add: PartialRollout_init_def)
  from env_runner_collect_terminal [OF col init]
  have r: "terminal r \<longrightarrow> te" "manager_r r = 0" "worker_r r = 0"
    by (simp_all add: PartialRollout_init_def)
  show ?thesis
  proof (cases te)
    case True
    with assms col have "rollout = r" by (simp add: env_runner_next_def)
    with r show ?thesis by simp
  next
    case False
    with assms(1) col have "terminal rollout = terminal r"
      by (auto simp: env_runner_next_def split: prod.splits)
    with assms(2) r False show ?thesis by simp
  qed
qed

text \<open>
  So every fragment the generator yields with \<open>terminal = true\<close> has bootstrap
  values \<open>0\<close>, and the rollout \<open>pull_batch_from_queue\<close> returns carries the
  flag and the bootstrap values of one fragment of the queue, the last one it
  merged.
\<close>

lemma env_runner_fragments_terminal_bootstrap:
  "f \<in> set (env_runner_fragments c num_local_steps st k) \<Longrightarrow> terminal f \<Longrightarrow>
     manager_r f = 0 \<and> worker_r f = 0"
proof (induction k arbitrary: st)
  case 0
  then show ?case by simp
next
  case (Suc k)
  obtain r st' where n: "env_runner_next c num_local_steps st = (r, st')"
    by (metis surj_pair)
  with Suc.prems(1) have "f = r \<or> f \<in> set (env_runner_fragments c num_local_steps st' k)"
    by simp
  then show ?case
  proof
    assume "f = r"
    with n Suc.prems(2) show ?thesis
      using env_runner_next_terminal_bootstrap [of c num_local_steps st r st'] by simp
  next
    assume "f \<in> set (env_runner_fragments c num_local_steps st' k)"
    from Suc.IH [OF this Suc.prems(2)] show ?thesis .
  qed
qed

lemma pull_batch_from_queue_last:
  assumes "pull_batch_from_queue q = (Inr rollout, q')"
  shows "\<exists>f \<in> set (present q) \<union> set (arriving q).
           terminal rollout = terminal f \<and> manager_r rollout = manager_r f
           \<and> worker_r rollout = worker_r f"
proof (cases "present q")
  case Nil
  show ?thesis
  proof (cases "arriving q")
    case Nil
    with \<open>present q = []\<close> assms show ?thesis
      by (simp add: pull_batch_from_queue_timeout)
  next
    case (Cons x ar)
    have "pull_batch_from_queue q = (Inr x, snd (pull_batch_from_queue q))"
      using \<open>present q = []\<close> Cons
      by (cases "terminal x")
         (simp_all add: pull_batch_from_queue_arriving pull_loop_terminal pull_loop_empty)
    with assms have "rollout = x" by simp
    with Cons show ?thesis by auto
  qed
next
  case (Cons x p)
  let ?q = "q\<lparr>present := p, calls := calls q @ [Get 600]\<rparr>"
  have "present ?q = p" by simp
  from pull_loop_spec [OF this, of x] obtain taken rest qa where
    p: "p = taken @ rest"
    and l0: "pull_loop x ?q = (Inr (merge_in_order (x # taken)), qa)"
    by blast
  then have l: "fst (pull_loop x ?q) = Inr (merge_in_order (x # taken))"
    by simp
  from assms l have r: "rollout = merge_in_order (x # taken)"
    by (simp add: pull_batch_from_queue_present [OF Cons])
  have "last (x # taken) \<in> set (present q)"
    using Cons p by (cases "taken = []") auto
  then show ?thesis
    unfolding r by (auto simp: merge_in_order_def simp del: last.simps)
qed

text \<open>
  C2. \<open>process_rollout\<close> is called on the rollouts \<open>pull_batch_from_queue\<close>
  returns, from a queue that holds fragments yielded by \<open>env_runner\<close>. For every
  such rollout with \<open>terminal = true\<close> and \<open>n \<ge> 1\<close> steps, the last element of each
  return stream equals the last reward \<open>r[n-1]\<close>: the bootstrap values of a
  fragment that ended an episode are \<open>0\<close>, and contribute nothing.
\<close>

theorem pulled_rollout_terminal_last:
  assumes "set (present q) \<union> set (arriving q)
             \<subseteq> set (env_runner_fragments c num_local_steps st k)"
    and "pull_batch_from_queue q = (Inr rollout, q')"
    and "terminal rollout" and "rewards rollout \<noteq> []"
  shows "last (manager_returns (process_rollout rollout mg wg lam)) = last (rewards rollout)
       \<and> last (worker_returns (process_rollout rollout mg wg lam)) = last (rewards rollout)"
proof -
  from pull_batch_from_queue_last [OF assms(2)] obtain f where
    f: "f \<in> set (present q) \<union> set (arriving q)" "terminal rollout = terminal f"
       "manager_r rollout = manager_r f" "worker_r rollout = worker_r f"
    by blast
  from f(1) assms(1) have "f \<in> set (env_runner_fragments c num_local_steps st k)"
    by blast
  from env_runner_fragments_terminal_bootstrap [OF this] f assms(3)
  have "manager_r rollout = 0" "worker_r rollout = 0"
    by simp_all
  with assms(4) show ?thesis
    by (simp add: process_rollout_def returns_last_elem)
qed

theorem pulled_rollout_terminal_last_witness:
  "env_runner_fragments
       \<lparr>env_reset = \<lambda>e :: nat. (0 :: nat, 0),
         env_step = \<lambda>e a. ((e + 1, 1, e + 1 = 3), e + 1),
         env_timestep_limit = 10, env_autoreset = False,
         policy_get_initial_features = ((), ()),
         policy_act = \<lambda>state c_g f. (0 :: nat, 0 :: real, (), (), (), ()),
         policy_value = \<lambda>state c_g f. (4, 5),
         action_argmax = \<lambda>a. a\<rparr>
       (Suc (Suc 0))
       (env_runner_init
          \<lparr>env_reset = \<lambda>e :: nat. (0 :: nat, 0),
         env_step = \<lambda>e a. ((e + 1, 1, e + 1 = 3), e + 1),
         env_timestep_limit = 10, env_autoreset = False,
         policy_get_initial_features = ((), ()),
         policy_act = \<lambda>state c_g f. (0 :: nat, 0 :: real, (), (), (), ()),
         policy_value = \<lambda>state c_g f. (4, 5),
         action_argmax = \<lambda>a. a\<rparr> 0)
       (Suc (Suc 0))
     = [\<lparr>states = [0, 1 :: nat], actions = [0, 0 :: nat], rewards = [1, 1],
         values' = [0, 0 :: real],
         ss = [(), ()], gs = [(), ()], features = [(), ()], manager_r = 4, worker_r = 5,
         terminal = False\<rparr>,
        \<lparr>states = [2 :: nat], actions = [0 :: nat], rewards = [1], values' = [0 :: real],
         ss = [()], gs = [()], features = [()], manager_r = 0, worker_r = 0,
         terminal = True\<rparr>]
   \<and> pull_batch_from_queue
       \<lparr>present = [\<lparr>states = [0, 1 :: nat], actions = [0, 0 :: nat], rewards = [1, 1],
         values' = [0, 0 :: real],
         ss = [(), ()], gs = [(), ()], features = [(), ()], manager_r = 4, worker_r = 5,
         terminal = False\<rparr>],
        arriving = [\<lparr>states = [2 :: nat], actions = [0 :: nat], rewards = [1], values' = [0 :: real],
         ss = [()], gs = [()], features = [()], manager_r = 0, worker_r = 0,
         terminal = True\<rparr>],
        calls = []\<rparr>
     = (Inr \<lparr>states = [0, 1 :: nat], actions = [0, 0 :: nat], rewards = [1, 1],
         values' = [0, 0 :: real],
         ss = [(), ()], gs = [(), ()], features = [(), ()], manager_r = 4, worker_r = 5,
         terminal = False\<rparr>,
        \<lparr>present = [],
         arriving = [\<lparr>states = [2 :: nat], actions = [0 :: nat], rewards = [1], values' = [0 :: real],
         ss = [()], gs = [()], features = [()], manager_r = 0, worker_r = 0,
         terminal = True\<rparr>],
         calls = [Get 600, GetNowait]\<rparr>)
   \<and> pull_batch_from_queue
       \<lparr>present = [\<lparr>states = [0, 1 :: nat], actions = [0, 0 :: nat], rewards = [1, 1],
         values' = [0, 0 :: real],
         ss = [(), ()], gs = [(), ()], features = [(), ()], manager_r = 4, worker_r = 5,
         terminal = False\<rparr>,
                   \<lparr>states = [2 :: nat], actions = [0 :: nat], rewards = [1], values' = [0 :: real],
         ss = [()], gs = [()], features = [()], manager_r = 0, worker_r = 0,
         terminal = True\<rparr>],
        arriving = [], calls = []\<rparr>
     = (Inr \<lparr>states = [0, 1, 2 :: nat], actions = [0, 0, 0 :: nat], rewards = [1, 1, 1],
         values' = [0, 0, 0 :: real],
         ss = [(), (), ()], gs = [(), (), ()], features = [(), (), ()], manager_r = 0,
         worker_r = 0, terminal = True\<rparr>,
        \<lparr>present = [], arriving = [], calls = [Get 600, GetNowait]\<rparr>)
   \<and> last (manager_returns (process_rollout
       \<lparr>states = [0, 1, 2 :: nat], actions = [0, 0, 0 :: nat], rewards = [1, 1, 1],
         values' = [0, 0, 0 :: real],
         ss = [(), (), ()], gs = [(), (), ()], features = [(), (), ()], manager_r = 0,
         worker_r = 0, terminal = True\<rparr>
       (1 / 2) (1 / 2) 1)) = 1
   \<and> last (worker_returns (process_rollout
       \<lparr>states = [0, 1, 2 :: nat], actions = [0, 0, 0 :: nat], rewards = [1, 1, 1],
         values' = [0, 0, 0 :: real],
         ss = [(), (), ()], gs = [(), (), ()], features = [(), (), ()], manager_r = 0,
         worker_r = 0, terminal = True\<rparr>
       (1 / 2) (1 / 2) 1)) = 1"
  using pulled_rollout_terminal_last
    [of "\<lparr>present = [\<lparr>states = [0, 1 :: nat], actions = [0, 0 :: nat], rewards = [1, 1],
         values' = [0, 0 :: real],
         ss = [(), ()], gs = [(), ()], features = [(), ()], manager_r = 4, worker_r = 5,
         terminal = False\<rparr>,
                   \<lparr>states = [2 :: nat], actions = [0 :: nat], rewards = [1], values' = [0 :: real],
         ss = [()], gs = [()], features = [()], manager_r = 0, worker_r = 0,
         terminal = True\<rparr>],
        arriving = [], calls = []\<rparr>"
        "\<lparr>env_reset = \<lambda>e :: nat. (0 :: nat, 0),
         env_step = \<lambda>e a. ((e + 1, 1, e + 1 = 3), e + 1),
         env_timestep_limit = 10, env_autoreset = False,
         policy_get_initial_features = ((), ()),
         policy_act = \<lambda>state c_g f. (0 :: nat, 0 :: real, (), (), (), ()),
         policy_value = \<lambda>state c_g f. (4, 5),
         action_argmax = \<lambda>a. a\<rparr>"
        "Suc (Suc 0)"
        "env_runner_init
          \<lparr>env_reset = \<lambda>e :: nat. (0 :: nat, 0),
         env_step = \<lambda>e a. ((e + 1, 1, e + 1 = 3), e + 1),
         env_timestep_limit = 10, env_autoreset = False,
         policy_get_initial_features = ((), ()),
         policy_act = \<lambda>state c_g f. (0 :: nat, 0 :: real, (), (), (), ()),
         policy_value = \<lambda>state c_g f. (4, 5),
         action_argmax = \<lambda>a. a\<rparr> 0"
        "Suc (Suc 0)"
        "\<lparr>states = [0, 1, 2 :: nat], actions = [0, 0, 0 :: nat], rewards = [1, 1, 1],
         values' = [0, 0, 0 :: real],
         ss = [(), (), ()], gs = [(), (), ()], features = [(), (), ()], manager_r = 0,
         worker_r = 0, terminal = True\<rparr>"
        "\<lparr>present = [], arriving = [], calls = [Get 600, GetNowait]\<rparr>"
        "1 / 2" "1 / 2" 1]
  by (simp add: env_runner_next_def env_runner_init_def PartialRollout_init_def add_def
        pull_batch_from_queue_present pull_loop_step pull_loop_terminal pull_loop_empty
        merge_in_order_def)

end
